theory Spec2Isabelle
  imports Main "HOL-Library.AList"
begin

section \<open>Data model (packages/plugin/src/shared.ts)\<close>

text \<open>
  The closed union \<^verbatim>\<open>RecallSdkEventType\<close>; \<open>eventName\<close> gives back the string
  literal of each member, which the broadcast channel name is built from.
\<close>

datatype RecallSdkEventType =
    Ev_recording_started
  | Ev_recording_ended
  | Ev_upload_progress
  | Ev_meeting_detected
  | Ev_meeting_updated
  | Ev_meeting_closed
  | Ev_sdk_state_change
  | Ev_error
  | Ev_media_capture_status
  | Ev_participant_capture_status
  | Ev_permissions_granted
  | Ev_permission_status
  | Ev_realtime_event
  | Ev_shutdown

fun eventName :: "RecallSdkEventType \<Rightarrow> string" where
  "eventName Ev_recording_started = ''recording-started''"
| "eventName Ev_recording_ended = ''recording-ended''"
| "eventName Ev_upload_progress = ''upload-progress''"
| "eventName Ev_meeting_detected = ''meeting-detected''"
| "eventName Ev_meeting_updated = ''meeting-updated''"
| "eventName Ev_meeting_closed = ''meeting-closed''"
| "eventName Ev_sdk_state_change = ''sdk-state-change''"
| "eventName Ev_error = ''error''"
| "eventName Ev_media_capture_status = ''media-capture-status''"
| "eventName Ev_participant_capture_status = ''participant-capture-status''"
| "eventName Ev_permissions_granted = ''permissions-granted''"
| "eventName Ev_permission_status = ''permission-status''"
| "eventName Ev_realtime_event = ''realtime-event''"
| "eventName Ev_shutdown = ''shutdown''"

datatype PermissionType = accessibility | screen_capture | microphone | system_audio

record RecallSdkConfig =
  enabled :: bool
  apiUrl :: string
  requestPermissionsOnStartup :: bool

text \<open>
  \<^verbatim>\<open>Partial<RecallSdkConfig>\<close>: every property may be absent (\<open>None\<close>). A property
  that is present holds a value of the field's declared type.
\<close>

record PartialRecallSdkConfig =
  enabled_opt :: "bool option"
  apiUrl_opt :: "string option"
  requestPermissionsOnStartup_opt :: "bool option"

record SdkInitOptions =
  sdk_apiUrl :: string
  acquirePermissionsOnStartup :: "PermissionType list option"
  restartOnError :: bool

text \<open>\<^verbatim>\<open>ApiResponse\<close>; none of the handlers modelled here sets \<^verbatim>\<open>data\<close>.\<close>

record ApiResponse =
  success :: bool
  message :: string

text \<open>
  What a \<^verbatim>\<open>throw\<close> carries: a \<^verbatim>\<open>RecallSdkError\<close> (message, code) or any other
  error object, of which the handlers only test \<^verbatim>\<open>instanceof RecallSdkError\<close>.
\<close>

datatype exn = RecallSdkError string string | OtherError

fun errorMessageOr :: "exn \<Rightarrow> string \<Rightarrow> string" where
  "errorMessageOr (RecallSdkError m c) fallback = m"
| "errorMessageOr OtherError fallback = fallback"

text \<open>Event payloads are opaque to the plugin (\<^verbatim>\<open>any\<close>); they are passed through unchanged.\<close>

type_synonym payload = string

text \<open>A \<^verbatim>\<open>WebContents\<close> object is identified by its process-unique numeric \<^verbatim>\<open>id\<close>.\<close>

type_synonym WebContents = nat

section \<open>The outside world\<close>

text \<open>
  Calls that leave the plugin, in the order they are made: the Recall SDK entry points,
  the \<^verbatim>\<open>webContents\<close> methods, and the console.
\<close>

datatype effect =
    SdkInit SdkInitOptions
  | SdkShutdown
  | SdkAddEventListener RecallSdkEventType
  | WcOnceDestroyed WebContents
  | WcSend WebContents string payload
  | ConsoleLog string
  | ConsoleError string

text \<open>
  How the outside world answers during one request: which of the external calls throw
  (or reject, for the awaited ones).
\<close>

record environment =
  initThrows :: "SdkInitOptions \<Rightarrow> bool"
  shutdownThrows :: bool
  addEventListenerThrows :: "RecallSdkEventType \<Rightarrow> bool"
  sendThrows :: "WebContents \<Rightarrow> bool"

section \<open>State\<close>

text \<open>
  The fields of the \<^verbatim>\<open>RecallSdkStore\<close> singleton (\<open>config\<close>, \<open>initialized\<close>,
  \<open>sdkInitialized\<close>), the fields of the \<^verbatim>\<open>RecallDesktopMain\<close> singleton, and
  the trace of external calls made so far. A JavaScript \<^verbatim>\<open>Map\<close> is an association
  list in insertion order: \<^verbatim>\<open>set\<close> on a present key keeps its place, on a new key
  appends (\<open>AList.update\<close>); \<^verbatim>\<open>delete\<close> removes the entry (\<open>AList.delete\<close>);
  \<^verbatim>\<open>get\<close> is \<open>map_of\<close>. Subscription counts are JavaScript numbers, here \<open>int\<close>.
  The handler stored in \<^verbatim>\<open>sdkEventHandlers\<close> under a kind is the closure
  \<^verbatim>\<open>(evt) => this.handleSdkEvent(eventType, evt)\<close>, represented by the kind it captured.
\<close>

record state =
  config :: RecallSdkConfig
  initialized :: bool
  sdkInitialized :: bool
  isInitialized :: bool
  subscriptions :: "(RecallSdkEventType \<times> (nat \<times> int) list) list"
  trackedWebContents :: "(nat \<times> WebContents) list"
  sdkEventHandlers :: "(RecallSdkEventType \<times> RecallSdkEventType) list"
  effects :: "effect list"

definition emit :: "effect \<Rightarrow> state \<Rightarrow> state" where
  "emit e st = st\<lparr>effects := effects st @ [e]\<rparr>"

text \<open>The external calls made between two states of one run.\<close>

definition since :: "state \<Rightarrow> state \<Rightarrow> effect list" where
  "since st st' = drop (length (effects st)) (effects st')"

text \<open>The state at process start: the field initialisers of both classes.\<close>

definition recallDesktopMain :: state where
  "recallDesktopMain =
     \<lparr>config = \<lparr>enabled = True, apiUrl = ''https://us-east-1.recall.ai'',
                requestPermissionsOnStartup = True\<rparr>,
      initialized = False,
      sdkInitialized = False,
      isInitialized = False,
      subscriptions = [],
      trackedWebContents = [],
      sdkEventHandlers = [],
      effects = []\<rparr>"

section \<open>RecallSdkStore (store.ts)\<close>

definition getConfig :: "state \<Rightarrow> RecallSdkConfig" where
  "getConfig st = config st"

text \<open>The object spread \<^verbatim>\<open>{ ...this.config, ...updates }\<close>.\<close>

definition spread :: "RecallSdkConfig \<Rightarrow> PartialRecallSdkConfig \<Rightarrow> RecallSdkConfig" where
  "spread c updates =
     \<lparr>enabled = (case enabled_opt updates of None \<Rightarrow> enabled c | Some b \<Rightarrow> b),
      apiUrl = (case apiUrl_opt updates of None \<Rightarrow> apiUrl c | Some u \<Rightarrow> u),
      requestPermissionsOnStartup =
        (case requestPermissionsOnStartup_opt updates of
           None \<Rightarrow> requestPermissionsOnStartup c | Some b \<Rightarrow> b)\<rparr>"

definition setConfig :: "PartialRecallSdkConfig \<Rightarrow> state \<Rightarrow> state" where
  "setConfig updates st =
     emit (ConsoleLog ''RecallSdkStore: Configuration updated:'')
       (st\<lparr>config := spread (config st) updates\<rparr>)"

definition isEnabled :: "state \<Rightarrow> bool" where
  "isEnabled st = enabled (config st)"

definition setSdkInitialized :: "bool \<Rightarrow> state \<Rightarrow> state" where
  "setSdkInitialized b st = st\<lparr>sdkInitialized := b\<rparr>"

definition isSdkInitialized :: "state \<Rightarrow> bool" where
  "isSdkInitialized st = sdkInitialized st"

definition clearState :: "state \<Rightarrow> state" where
  "clearState st =
     emit (ConsoleLog ''RecallSdkStore: Cleared all state'') (setSdkInitialized False st)"

definition store_initialize :: "state \<Rightarrow> state" where
  "store_initialize st =
     emit (ConsoleLog ''RecallSdkStore: Initialized successfully'') (st\<lparr>initialized := True\<rparr>)"

section \<open>RecallDesktopMain (main.ts)\<close>

text \<open>
  \<^verbatim>\<open>initialize()\<close>: registers the IPC handlers below once, unless the plugin is
  disabled. Nothing in it throws.
\<close>

definition initialize :: "state \<Rightarrow> state" where
  "initialize st =
     (if isInitialized st then st
      else if \<not> isEnabled st then emit (ConsoleLog ''RecallDesktopMain: Plugin is disabled'') st
      else emit (ConsoleLog ''RecallDesktopMain: Main process initialized'')
             ((store_initialize st)\<lparr>isInitialized := True\<rparr>))"

text \<open>
  The state in which the IPC handlers exist: the module has been loaded and
  \<^verbatim>\<open>initialize()\<close> has run.
\<close>

definition started :: state where
  "started = initialize recallDesktopMain"

text \<open>
  \<^verbatim>\<open>initializeSdk()\<close>: the result is the exception thrown, if any. Whatever
  \<^verbatim>\<open>RecallAiSdk.init\<close> rejects with is replaced by a \<^verbatim>\<open>RecallSdkError\<close>.
\<close>

definition sdkOptionsOf :: "RecallSdkConfig \<Rightarrow> SdkInitOptions" where
  "sdkOptionsOf cfg =
     \<lparr>sdk_apiUrl = apiUrl cfg,
      acquirePermissionsOnStartup =
        (if requestPermissionsOnStartup cfg
         then Some [accessibility, screen_capture, microphone, system_audio]
         else None),
      restartOnError = True\<rparr>"

definition initializeSdk :: "environment \<Rightarrow> state \<Rightarrow> exn option \<times> state" where
  "initializeSdk env st =
     (let cfg = getConfig st;
          sdkOptions = sdkOptionsOf cfg;
          st1 = emit (ConsoleLog ''RecallDesktopMain: SDK options:'') st;
          st2 = emit (SdkInit sdkOptions) st1
      in if initThrows env sdkOptions
         then (Some (RecallSdkError ''SDK initialization failed'' ''SDK_INIT_ERROR''),
               emit (ConsoleError ''RecallDesktopMain: Failed to initialize SDK:'') st2)
         else (None,
               emit (ConsoleLog ''RecallDesktopMain: SDK initialized successfully'')
                 (setSdkInitialized True st2)))"

text \<open>The body of the \<^verbatim>\<open>forEach\<close> callback of \<^verbatim>\<open>broadcastEvent\<close>, for one map entry.\<close>

definition sendToSubscriber ::
    "environment \<Rightarrow> string \<Rightarrow> payload \<Rightarrow> state \<Rightarrow> nat \<times> int \<Rightarrow> state" where
  "sendToSubscriber env channel data st entry =
     (case map_of (trackedWebContents st) (fst entry) of
        None \<Rightarrow> st
      | Some wc \<Rightarrow>
          (let st1 = emit (WcSend wc channel data) st
           in if sendThrows env wc
              then emit (ConsoleError
                     ''RecallDesktopMain: Failed to send event to webContents'') st1
              else st1))"

definition channelOf :: "RecallSdkEventType \<Rightarrow> string" where
  "channelOf type = ''recall-desktop:event:'' @ eventName type"

definition broadcastEvent ::
    "environment \<Rightarrow> RecallSdkEventType \<Rightarrow> payload \<Rightarrow> state \<Rightarrow> state" where
  "broadcastEvent env type data st =
     (let channel = channelOf type
      in case map_of (subscriptions st) type of
           None \<Rightarrow> st
         | Some subs \<Rightarrow> foldl (sendToSubscriber env channel data) st subs)"

text \<open>
  \<^verbatim>\<open>ensureSdkListener\<close>: the handler is stored before the provider is called, so it
  stays stored when \<^verbatim>\<open>addEventListener\<close> throws.
\<close>

definition ensureSdkListener ::
    "environment \<Rightarrow> RecallSdkEventType \<Rightarrow> state \<Rightarrow> exn option \<times> state" where
  "ensureSdkListener env eventType st =
     (if map_of (sdkEventHandlers st) eventType \<noteq> None then (None, st)
      else
        (let st1 = st\<lparr>sdkEventHandlers := AList.update eventType eventType (sdkEventHandlers st)\<rparr>;
             st2 = emit (SdkAddEventListener eventType) st1
         in if addEventListenerThrows env eventType then (Some OtherError, st2)
            else (None, st2)))"

text \<open>
  The side-effect table: per kind, an optional action on the state that may throw.
  \<open>eventSideEffects\<close> is the table of the source, with its single entry.
\<close>

type_synonym sideEffects =
  "RecallSdkEventType \<Rightarrow> (payload \<Rightarrow> state \<Rightarrow> exn option \<times> state) option"

definition eventSideEffects :: sideEffects where
  "eventSideEffects eventType =
     (if eventType = Ev_shutdown then Some (\<lambda>evt st. (None, clearState st)) else None)"

definition sdkEventLine :: "RecallSdkEventType \<Rightarrow> effect" where
  "sdkEventLine eventType =
     (if eventType = Ev_error then ConsoleError ''RecallDesktopMain: SDK error:''
      else ConsoleLog (''RecallDesktopMain: '' @ eventName eventType))"

definition logSdkEvent :: "RecallSdkEventType \<Rightarrow> state \<Rightarrow> state" where
  "logSdkEvent eventType st = emit (sdkEventLine eventType) st"

definition runSideEffect ::
    "sideEffects \<Rightarrow> RecallSdkEventType \<Rightarrow> payload \<Rightarrow> state \<Rightarrow> state" where
  "runSideEffect table eventType evt st =
     (case table eventType of
        None \<Rightarrow> st
      | Some sideEffect \<Rightarrow>
          (case sideEffect evt st of
             (None, st1) \<Rightarrow> st1
           | (Some err, st1) \<Rightarrow>
               emit (ConsoleError ''RecallDesktopMain: Side effect failed for'') st1))"

definition handleSdkEventWith ::
    "sideEffects \<Rightarrow> environment \<Rightarrow> RecallSdkEventType \<Rightarrow> payload \<Rightarrow> state \<Rightarrow> state" where
  "handleSdkEventWith table env eventType evt st =
     broadcastEvent env eventType evt (runSideEffect table eventType evt (logSdkEvent eventType st))"

definition handleSdkEvent ::
    "environment \<Rightarrow> RecallSdkEventType \<Rightarrow> payload \<Rightarrow> state \<Rightarrow> state" where
  "handleSdkEvent = handleSdkEventWith eventSideEffects"

subsection \<open>IPC handlers (registerIpcHandlers)\<close>

text \<open>The callback registered by \<^verbatim>\<open>wc.once("destroyed", ...)\<close>.\<close>

definition destroyedCallback :: "nat \<Rightarrow> state \<Rightarrow> state" where
  "destroyedCallback id' st =
     st\<lparr>subscriptions := AList.map_ran (\<lambda>k m. AList.delete id' m) (subscriptions st),
        trackedWebContents := AList.delete id' (trackedWebContents st)\<rparr>"

definition addDestroyedCleanup :: "WebContents \<Rightarrow> state \<Rightarrow> state" where
  "addDestroyedCleanup wc st =
     (let id' = wc
      in if map_of (trackedWebContents st) id' \<noteq> None then st
         else emit (WcOnceDestroyed wc)
                (st\<lparr>trackedWebContents := AList.update id' wc (trackedWebContents st)\<rparr>))"

definition SUBSCRIBE_EVENTS ::
    "environment \<Rightarrow> WebContents \<Rightarrow> RecallSdkEventType \<Rightarrow> state \<Rightarrow> ApiResponse \<times> state" where
  "SUBSCRIBE_EVENTS env wc eventType st =
     (let st1 = addDestroyedCleanup wc st;
          m = (case map_of (subscriptions st1) eventType of None \<Rightarrow> [] | Some m0 \<Rightarrow> m0);
          id' = wc;
          prev = (case map_of m id' of None \<Rightarrow> 0 | Some c \<Rightarrow> c);
          st2 = st1\<lparr>subscriptions :=
                  AList.update eventType (AList.update id' (prev + 1) m) (subscriptions st1)\<rparr>
      in case ensureSdkListener env eventType st2 of
           (None, st3) \<Rightarrow>
             (\<lparr>success = True, message = ''Subscribed to '' @ eventName eventType\<rparr>, st3)
         | (Some err, st3) \<Rightarrow>
             (\<lparr>success = False, message = ''Failed to subscribe to events''\<rparr>,
              emit (ConsoleError ''RecallDesktopMain: subscribe-events failed'') st3))"

definition UNSUBSCRIBE_EVENTS ::
    "WebContents \<Rightarrow> RecallSdkEventType \<Rightarrow> state \<Rightarrow> ApiResponse \<times> state" where
  "UNSUBSCRIBE_EVENTS wc eventType st =
     (\<lparr>success = True, message = ''Unsubscribed from '' @ eventName eventType\<rparr>,
      (case map_of (subscriptions st) eventType of
         None \<Rightarrow> st
       | Some m \<Rightarrow>
           (let id' = wc;
                prev = (case map_of m id' of None \<Rightarrow> 0 | Some c \<Rightarrow> c)
            in st\<lparr>subscriptions :=
                    AList.update eventType
                      (if prev \<le> 1 then AList.delete id' m else AList.update id' (prev - 1) m)
                      (subscriptions st)\<rparr>)))"

definition INIT_SDK :: "environment \<Rightarrow> state \<Rightarrow> ApiResponse \<times> state" where
  "INIT_SDK env st =
     (if \<not> isEnabled st
      then (\<lparr>success = False,
              message = errorMessageOr (RecallSdkError ''Plugin is disabled'' ''PLUGIN_DISABLED'')
                          ''SDK initialization failed''\<rparr>,
            emit (ConsoleError ''RecallDesktopMain: SDK initialization failed:'') st)
      else if isSdkInitialized st
      then (\<lparr>success = True, message = ''SDK already initialized''\<rparr>, st)
      else (case initializeSdk env st of
              (None, st1) \<Rightarrow> (\<lparr>success = True, message = ''SDK initialized successfully''\<rparr>, st1)
            | (Some err, st1) \<Rightarrow>
                (\<lparr>success = False, message = errorMessageOr err ''SDK initialization failed''\<rparr>,
                 emit (ConsoleError ''RecallDesktopMain: SDK initialization failed:'') st1)))"

definition SHUTDOWN_SDK :: "environment \<Rightarrow> state \<Rightarrow> ApiResponse \<times> state" where
  "SHUTDOWN_SDK env st =
     (let st1 = emit SdkShutdown st
      in if shutdownThrows env
         then (\<lparr>success = False, message = ''SDK shutdown failed''\<rparr>,
               emit (ConsoleError ''RecallDesktopMain: SDK shutdown failed:'') st1)
         else (\<lparr>success = True, message = ''SDK shutdown successfully''\<rparr>, clearState st1))"

text \<open>JavaScript truthiness of \<^verbatim>\<open>config.apiUrl\<close>: absent and the empty string are falsy.\<close>

definition truthy :: "string option \<Rightarrow> bool" where
  "truthy v = (case v of None \<Rightarrow> False | Some s \<Rightarrow> s \<noteq> [])"

definition SET_CONFIG ::
    "environment \<Rightarrow> PartialRecallSdkConfig \<Rightarrow> state \<Rightarrow> ApiResponse \<times> state" where
  "SET_CONFIG env cfg st =
     (let st1 = setConfig cfg st
      in if isSdkInitialized st1
            \<and> (truthy (apiUrl_opt cfg) \<or> requestPermissionsOnStartup_opt cfg \<noteq> None)
         then
           (let st2 = emit (ConsoleLog
                        ''RecallDesktopMain: Reinitializing SDK due to configuration change'') st1;
                st3 = emit SdkShutdown st2
            in if shutdownThrows env
               then (\<lparr>success = False, message = ''Failed to update configuration''\<rparr>,
                     emit (ConsoleError ''RecallDesktopMain: Failed to set configuration:'') st3)
               else (case initializeSdk env st3 of
                       (None, st4) \<Rightarrow>
                         (\<lparr>success = True, message = ''Configuration updated successfully''\<rparr>,
                          st4)
                     | (Some err, st4) \<Rightarrow>
                         (\<lparr>success = False, message = ''Failed to update configuration''\<rparr>,
                          emit (ConsoleError
                            ''RecallDesktopMain: Failed to set configuration:'') st4)))
         else (\<lparr>success = True, message = ''Configuration updated successfully''\<rparr>, st1))"

subsection \<open>Runs\<close>

text \<open>
  Everything that can happen to the running plugin: a renderer's request arriving on one
  of the channels above, a tracked \<^verbatim>\<open>webContents\<close> being destroyed (its
  once-callback exists exactly while it is tracked), and the provider invoking the
  listener registered for a kind (there is one only after \<open>ensureSdkListener\<close>
  stored it). Each is processed to completion before the next: an awaited provider call
  has settled, one way or the other, when the handler that made it goes on, and nothing
  else is processed in between.
\<close>

datatype request =
    SubscribeEvents WebContents RecallSdkEventType
  | UnsubscribeEvents WebContents RecallSdkEventType
  | InitSdk
  | ShutdownSdk
  | SetConfig PartialRecallSdkConfig
  | Destroyed WebContents
  | SdkEvent RecallSdkEventType payload

fun step :: "environment \<Rightarrow> request \<Rightarrow> state \<Rightarrow> state" where
  "step env (SubscribeEvents wc k) st = snd (SUBSCRIBE_EVENTS env wc k st)"
| "step env (UnsubscribeEvents wc k) st = snd (UNSUBSCRIBE_EVENTS wc k st)"
| "step env InitSdk st = snd (INIT_SDK env st)"
| "step env ShutdownSdk st = snd (SHUTDOWN_SDK env st)"
| "step env (SetConfig cfg) st = snd (SET_CONFIG env cfg st)"
| "step env (Destroyed wc) st =
     (if map_of (trackedWebContents st) wc \<noteq> None then destroyedCallback wc st else st)"
| "step env (SdkEvent k evt) st =
     (if map_of (sdkEventHandlers st) k \<noteq> None then handleSdkEvent env k evt st else st)"

fun run :: "(environment \<times> request) list \<Rightarrow> state \<Rightarrow> state" where
  "run [] st = st"
| "run (er # rest) st = run rest (step (fst er) (snd er) st)"

section \<open>Notions used to state the properties\<close>

text \<open>The provider's lifecycle entry points among the external calls.\<close>

fun isLifecycleCall :: "effect \<Rightarrow> bool" where
  "isLifecycleCall (SdkInit opts) = True"
| "isLifecycleCall SdkShutdown = True"
| "isLifecycleCall e = False"

definition lifecycleCalls :: "effect list \<Rightarrow> effect list" where
  "lifecycleCalls tr = filter isLifecycleCall tr"

fun isSend :: "effect \<Rightarrow> bool" where
  "isSend (WcSend wc channel data) = True"
| "isSend e = False"

fun isSendTo :: "WebContents \<Rightarrow> effect \<Rightarrow> bool" where
  "isSendTo c (WcSend wc channel data) = (wc = c)"
| "isSendTo c e = False"

text \<open>How many times a trace delivers payload \<open>data\<close> of kind \<open>k\<close> to consumer \<open>c\<close>.\<close>

definition deliveriesTo ::
    "WebContents \<Rightarrow> RecallSdkEventType \<Rightarrow> payload \<Rightarrow> effect list \<Rightarrow> nat" where
  "deliveriesTo c k data tr = length (filter (\<lambda>e. e = WcSend c (channelOf k) data) tr)"

text \<open>How many times a trace registers a provider-side listener for kind \<open>k\<close>.\<close>

definition registrationsOf :: "RecallSdkEventType \<Rightarrow> effect list \<Rightarrow> nat" where
  "registrationsOf k tr = length (filter (\<lambda>e. e = SdkAddEventListener k) tr)"

text \<open>The subscriber map stored under kind \<open>k\<close>; empty when there is none.\<close>

definition subsMap :: "state \<Rightarrow> RecallSdkEventType \<Rightarrow> (nat \<times> int) list" where
  "subsMap st k = (case map_of (subscriptions st) k of None \<Rightarrow> [] | Some m \<Rightarrow> m)"

text \<open>The count stored for consumer \<open>c\<close> under kind \<open>k\<close>; 0 when there is no entry.\<close>

definition subCount :: "state \<Rightarrow> RecallSdkEventType \<Rightarrow> WebContents \<Rightarrow> int" where
  "subCount st k c = (case map_of (subsMap st k) c of None \<Rightarrow> 0 | Some n \<Rightarrow> n)"

text \<open>The consumers with an entry under kind \<open>k\<close>, in the order the fan-out visits them.\<close>

definition subscribersOf :: "state \<Rightarrow> RecallSdkEventType \<Rightarrow> WebContents list" where
  "subscribersOf st k = map fst (subsMap st k)"

text \<open>
  The net subscription count of consumer \<open>c\<close> for kind \<open>k\<close> over a sequence of
  requests, as the specification words it: a subscribe adds one, an unsubscribe takes
  one away unless the count is already zero, and the removal of the consumer resets it.
\<close>

fun netStep :: "WebContents \<Rightarrow> RecallSdkEventType \<Rightarrow> int \<Rightarrow> request \<Rightarrow> int" where
  "netStep c k n (SubscribeEvents w k') = (if w = c \<and> k' = k then n + 1 else n)"
| "netStep c k n (UnsubscribeEvents w k') = (if w = c \<and> k' = k then max 0 (n - 1) else n)"
| "netStep c k n (Destroyed w) = (if w = c then 0 else n)"
| "netStep c k n r = n"

definition netCount :: "WebContents \<Rightarrow> RecallSdkEventType \<Rightarrow> request list \<Rightarrow> int" where
  "netCount c k rs = foldl (netStep c k) 0 rs"

text \<open>
  What one fan-out emits for a subscriber map \<open>m\<close>: for every entry whose consumer is
  tracked, one send, followed by an error line when that send throws.
\<close>

definition fanout ::
    "environment \<Rightarrow> string \<Rightarrow> payload \<Rightarrow> (nat \<times> WebContents) list \<Rightarrow> (nat \<times> int) list
      \<Rightarrow> effect list" where
  "fanout env channel data tracked m =
     concat (map (\<lambda>entry.
        case map_of tracked (fst entry) of
          None \<Rightarrow> []
        | Some wc \<Rightarrow>
            WcSend wc channel data #
              (if sendThrows env wc
               then [ConsoleError ''RecallDesktopMain: Failed to send event to webContents'']
               else [])) m)"

definition fanoutOf ::
    "environment \<Rightarrow> RecallSdkEventType \<Rightarrow> payload \<Rightarrow> state \<Rightarrow> effect list" where
  "fanoutOf env k data st =
     fanout env (channelOf k) data (trackedWebContents st) (subsMap st k)"

text \<open>The tracked \<^verbatim>\<open>webContents\<close> of the subscribers of kind \<open>k\<close>, in fan-out order.\<close>

definition recipients :: "state \<Rightarrow> RecallSdkEventType \<Rightarrow> WebContents list" where
  "recipients st k = List.map_filter (map_of (trackedWebContents st)) (subscribersOf st k)"

text \<open>Whether a request is a subscribe call for kind \<open>k\<close>, or one from consumer \<open>c\<close>.\<close>

fun subscribesTo :: "RecallSdkEventType \<Rightarrow> request \<Rightarrow> bool" where
  "subscribesTo k (SubscribeEvents w k') = (k' = k)"
| "subscribesTo k r = False"

fun subscribesAs :: "WebContents \<Rightarrow> request \<Rightarrow> bool" where
  "subscribesAs c (SubscribeEvents w k') = (w = c)"
| "subscribesAs c r = False"

definition registered :: "state \<Rightarrow> RecallSdkEventType \<Rightarrow> bool" where
  "registered st k \<longleftrightarrow> map_of (sdkEventHandlers st) k \<noteq> None"

definition tracked :: "state \<Rightarrow> WebContents \<Rightarrow> bool" where
  "tracked st c \<longleftrightarrow> map_of (trackedWebContents st) c \<noteq> None"

text \<open>
  A side effect that leaves the subscriber maps and the tracked consumers as they are
  and only adds to the trace of external calls; it may change the store, and it may throw.
\<close>

definition leavesHubAlone :: "(state \<Rightarrow> exn option \<times> state) \<Rightarrow> bool" where
  "leavesHubAlone g \<longleftrightarrow>
     (\<forall>s. subscriptions (snd (g s)) = subscriptions s
          \<and> trackedWebContents (snd (g s)) = trackedWebContents s
          \<and> effects (snd (g s)) = effects s @ since s (snd (g s)))"

text \<open>
  The shape of the hub that every run keeps: keys are not repeated, every stored count
  is at least 1, every subscribed consumer is tracked, and a tracked
  \<^verbatim>\<open>webContents\<close> is stored under its own id.
\<close>

definition hub_ok ::
    "(RecallSdkEventType \<times> (nat \<times> int) list) list \<Rightarrow> (nat \<times> WebContents) list \<Rightarrow> bool" where
  "hub_ok subs trk \<longleftrightarrow>
     distinct (map fst subs)
     \<and> (\<forall>iw \<in> set trk. snd iw = fst iw)
     \<and> (\<forall>km \<in> set subs.
          distinct (map fst (snd km))
          \<and> (\<forall>ic \<in> set (snd km). 1 \<le> snd ic \<and> map_of trk (fst ic) \<noteq> None))"

definition hub_inv :: "state \<Rightarrow> bool" where
  "hub_inv st \<longleftrightarrow> hub_ok (subscriptions st) (trackedWebContents st)"

subsection \<open>Sample inputs\<close>

definition allSucceed :: environment where
  "allSucceed =
     \<lparr>initThrows = (\<lambda>opts. False), shutdownThrows = False,
      addEventListenerThrows = (\<lambda>k. False), sendThrows = (\<lambda>w. False)\<rparr>"

definition shutdownFails :: environment where
  "shutdownFails = allSucceed\<lparr>shutdownThrows := True\<rparr>"

definition initFails :: environment where
  "initFails = allSucceed\<lparr>initThrows := (\<lambda>opts. True)\<rparr>"

definition noUpdates :: PartialRecallSdkConfig where
  "noUpdates =
     \<lparr>enabled_opt = None, apiUrl_opt = None, requestPermissionsOnStartup_opt = None\<rparr>"

text \<open>
  The started plugin after a successful init-sdk request, and after a set-config
  request that disabled it.
\<close>

definition readyState :: state where
  "readyState = snd (INIT_SDK allSucceed started)"

definition disabledState :: state where
  "disabledState = snd (SET_CONFIG allSucceed (noUpdates\<lparr>enabled_opt := Some False\<rparr>) started)"

definition newEndpoint :: PartialRecallSdkConfig where
  "newEndpoint = noUpdates\<lparr>apiUrl_opt := Some ''https://eu-central-1.recall.ai''\<rparr>"

text \<open>A partial update whose \<^verbatim>\<open>apiUrl\<close> is the empty string.\<close>

definition emptyEndpoint :: PartialRecallSdkConfig where
  "emptyEndpoint = noUpdates\<lparr>apiUrl_opt := Some []\<rparr>"

definition listenerFails :: environment where
  "listenerFails = allSucceed\<lparr>addEventListenerThrows := (\<lambda>k. True)\<rparr>"

definition firstSendFails :: environment where
  "firstSendFails = allSucceed\<lparr>sendThrows := (\<lambda>w. w = 1)\<rparr>"

text \<open>A side-effect table whose every entry throws.\<close>

definition throwingSideEffects :: sideEffects where
  "throwingSideEffects eventType = Some (\<lambda>evt st. (Some OtherError, st))"

text \<open>Consumers 1 and 2 subscribe to the shutdown kind, then the SDK is initialised.\<close>

definition twoSubscribers :: "(environment \<times> request) list" where
  "twoSubscribers =
     [(allSucceed, SubscribeEvents 1 Ev_shutdown),
      (allSucceed, SubscribeEvents 2 Ev_shutdown),
      (allSucceed, InitSdk)]"

text \<open>Consumer 7 subscribes twice to one kind and unsubscribes once, or twice.\<close>

definition twiceThenOnce :: "(environment \<times> request) list" where
  "twiceThenOnce =
     [(allSucceed, SubscribeEvents 7 Ev_meeting_detected),
      (allSucceed, SubscribeEvents 7 Ev_meeting_detected),
      (allSucceed, UnsubscribeEvents 7 Ev_meeting_detected)]"

definition twiceThenTwice :: "(environment \<times> request) list" where
  "twiceThenTwice = twiceThenOnce @ [(allSucceed, UnsubscribeEvents 7 Ev_meeting_detected)]"

text \<open>Consumers 7 and 8 subscribe; later the kind fires and 7's unsubscribe arrives.\<close>

definition sevenAndEight :: "(environment \<times> request) list" where
  "sevenAndEight =
     [(allSucceed, SubscribeEvents 7 Ev_meeting_detected),
      (allSucceed, SubscribeEvents 8 Ev_meeting_detected)]"

definition fireThenUnsubscribe :: "(environment \<times> request) list" where
  "fireThenUnsubscribe =
     [(allSucceed, SdkEvent Ev_meeting_detected ''zoom''),
      (allSucceed, UnsubscribeEvents 7 Ev_meeting_detected)]"

section \<open>Basic facts\<close>

lemma emit_fields [simp]:
  "config (emit e st) = config st"
  "initialized (emit e st) = initialized st"
  "sdkInitialized (emit e st) = sdkInitialized st"
  "isInitialized (emit e st) = isInitialized st"
  "subscriptions (emit e st) = subscriptions st"
  "trackedWebContents (emit e st) = trackedWebContents st"
  "sdkEventHandlers (emit e st) = sdkEventHandlers st"
  "effects (emit e st) = effects st @ [e]"
  by (simp_all add: emit_def)

lemma initializeSdk_eq:
  "initializeSdk env st =
     (if initThrows env (sdkOptionsOf (config st))
      then (Some (RecallSdkError ''SDK initialization failed'' ''SDK_INIT_ERROR''),
            st\<lparr>effects := effects st @
              [ConsoleLog ''RecallDesktopMain: SDK options:'', SdkInit (sdkOptionsOf (config st)),
               ConsoleError ''RecallDesktopMain: Failed to initialize SDK:'']\<rparr>)
      else (None,
            st\<lparr>sdkInitialized := True, effects := effects st @
              [ConsoleLog ''RecallDesktopMain: SDK options:'', SdkInit (sdkOptionsOf (config st)),
               ConsoleLog ''RecallDesktopMain: SDK initialized successfully'']\<rparr>))"
  by (simp add: initializeSdk_def Let_def getConfig_def setSdkInitialized_def emit_def)

lemmas lifecycle_defs =
  SET_CONFIG_def INIT_SDK_def SHUTDOWN_SDK_def Let_def setConfig_def clearState_def
  isSdkInitialized_def isEnabled_def setSdkInitialized_def initializeSdk_eq emit_def
  lifecycleCalls_def since_def

lemmas sample_defs =
  allSucceed_def shutdownFails_def initFails_def listenerFails_def readyState_def
  disabledState_def
  started_def initialize_def store_initialize_def recallDesktopMain_def
  noUpdates_def newEndpoint_def emptyEndpoint_def truthy_def sdkOptionsOf_def spread_def

section \<open>Initialising while disabled\<close>

text \<open>
  C7. When the configuration's \<open>enabled\<close> flag is false, the init-sdk handler answers
  \<open>success = False\<close> with the message of the disabled error, calls nothing of the
  provider (its only external call is one console error line), and leaves the store and
  the hub as they were; in particular \<open>sdkInitialized\<close> keeps its value, so an
  uninitialised SDK stays uninitialised.
\<close>

theorem INIT_SDK_disabled:
  "\<not> enabled (config st) \<Longrightarrow>
     fst (INIT_SDK env st) = \<lparr>success = False, message = ''Plugin is disabled''\<rparr>
     \<and> since st (snd (INIT_SDK env st))
         = [ConsoleError ''RecallDesktopMain: SDK initialization failed:'']
     \<and> snd (INIT_SDK env st)
         = st\<lparr>effects := effects st
                 @ [ConsoleError ''RecallDesktopMain: SDK initialization failed:'']\<rparr>
     \<and> sdkInitialized (snd (INIT_SDK env st)) = sdkInitialized st"
  by (simp add: INIT_SDK_def isEnabled_def since_def emit_def)

theorem INIT_SDK_disabled_witness:
  "\<not> enabled (config disabledState)
   \<and> fst (INIT_SDK allSucceed disabledState)
       = \<lparr>success = False, message = ''Plugin is disabled''\<rparr>
   \<and> since disabledState (snd (INIT_SDK allSucceed disabledState))
       = [ConsoleError ''RecallDesktopMain: SDK initialization failed:'']
   \<and> sdkInitialized (snd (INIT_SDK allSucceed disabledState)) = False"
  using INIT_SDK_disabled [of disabledState allSucceed]
  by (simp add: lifecycle_defs sample_defs)

section \<open>Shutting down\<close>

text \<open>
  C2, as the code has it. The shutdown-sdk handler calls the provider's shutdown exactly
  once. The provider-ready flag is cleared exactly when that call returns: then the
  answer is a success and \<open>sdkInitialized\<close> is false. When the provider's shutdown
  throws, the answer is a failure and \<open>sdkInitialized\<close> keeps the value it had.
\<close>

theorem SHUTDOWN_SDK_clears_when_provider_returns:
  "lifecycleCalls (since st (snd (SHUTDOWN_SDK env st))) = [SdkShutdown]
   \<and> success (fst (SHUTDOWN_SDK env st)) = (\<not> shutdownThrows env)
   \<and> sdkInitialized (snd (SHUTDOWN_SDK env st)) = (shutdownThrows env \<and> sdkInitialized st)"
  by (simp add: lifecycle_defs)

theorem SHUTDOWN_SDK_clears_when_provider_returns_witness:
  "sdkInitialized readyState
   \<and> lifecycleCalls (since readyState (snd (SHUTDOWN_SDK allSucceed readyState))) = [SdkShutdown]
   \<and> success (fst (SHUTDOWN_SDK allSucceed readyState)) = True
   \<and> sdkInitialized (snd (SHUTDOWN_SDK allSucceed readyState)) = False"
  using SHUTDOWN_SDK_clears_when_provider_returns [of readyState allSucceed]
  by (simp add: lifecycle_defs sample_defs)

text \<open>
  C2, as the specification states it, fails: with the SDK initialised and a provider
  shutdown that throws, the flag is still set when the handler has answered.
\<close>

theorem SHUTDOWN_SDK_throwing_counterexample:
  "sdkInitialized readyState
   \<and> fst (SHUTDOWN_SDK shutdownFails readyState)
       = \<lparr>success = False, message = ''SDK shutdown failed''\<rparr>
   \<and> sdkInitialized (snd (SHUTDOWN_SDK shutdownFails readyState)) = True"
  by (simp add: lifecycle_defs sample_defs)

section \<open>Changing the configuration\<close>

lemma SET_CONFIG_config:
  "config (snd (SET_CONFIG env cfg st)) = spread (config st) cfg"
  by (simp add: lifecycle_defs)

lemma SET_CONFIG_lifecycleCalls:
  "lifecycleCalls (since st (snd (SET_CONFIG env cfg st))) =
    (if sdkInitialized st
        \<and> (truthy (apiUrl_opt cfg) \<or> requestPermissionsOnStartup_opt cfg \<noteq> None)
     then (if shutdownThrows env then [SdkShutdown]
           else [SdkShutdown, SdkInit (sdkOptionsOf (spread (config st) cfg))])
     else [])"
  by (simp add: lifecycle_defs)

lemma SET_CONFIG_success:
  "success (fst (SET_CONFIG env cfg st)) =
    (\<not> (sdkInitialized st
         \<and> (truthy (apiUrl_opt cfg) \<or> requestPermissionsOnStartup_opt cfg \<noteq> None)
         \<and> (shutdownThrows env \<or> initThrows env (sdkOptionsOf (spread (config st) cfg)))))"
  by (simp add: lifecycle_defs)

text \<open>
  C4, as the code has it. The set-config handler always stores the merged configuration.
  It then calls the provider exactly when the SDK is initialised and the partial update
  carries a non-empty \<open>apiUrl\<close> or any \<open>requestPermissionsOnStartup\<close>: first
  shutdown, once, and, if the shutdown returned, init, once, with the options of the new
  configuration. In every other case, in particular whenever the SDK is not initialised,
  it calls neither.
\<close>

theorem SET_CONFIG_reinitialises:
  "config (snd (SET_CONFIG env cfg st)) = spread (config st) cfg
   \<and> lifecycleCalls (since st (snd (SET_CONFIG env cfg st))) =
      (if sdkInitialized st
          \<and> (truthy (apiUrl_opt cfg) \<or> requestPermissionsOnStartup_opt cfg \<noteq> None)
       then (if shutdownThrows env then [SdkShutdown]
             else [SdkShutdown, SdkInit (sdkOptionsOf (spread (config st) cfg))])
       else [])"
  by (simp only: SET_CONFIG_config SET_CONFIG_lifecycleCalls simp_thms)

theorem SET_CONFIG_reinitialises_witness:
  "apiUrl (config (snd (SET_CONFIG allSucceed newEndpoint readyState)))
       = ''https://eu-central-1.recall.ai''
   \<and> lifecycleCalls (since readyState (snd (SET_CONFIG allSucceed newEndpoint readyState)))
       = [SdkShutdown,
          SdkInit \<lparr>sdk_apiUrl = ''https://eu-central-1.recall.ai'',
                   acquirePermissionsOnStartup =
                     Some [accessibility, screen_capture, microphone, system_audio],
                   restartOnError = True\<rparr>]
   \<and> lifecycleCalls (since recallDesktopMain
         (snd (SET_CONFIG allSucceed newEndpoint recallDesktopMain))) = []"
  using SET_CONFIG_reinitialises [of allSucceed newEndpoint readyState]
    SET_CONFIG_reinitialises [of allSucceed newEndpoint recallDesktopMain]
  by (simp add: lifecycle_defs sample_defs)

text \<open>
  C4, as the specification states it, fails twice over while the SDK is initialised: a
  partial update that sets \<open>apiUrl\<close> to the empty string touches the endpoint and
  triggers no provider call at all, and when the provider's shutdown throws, init is
  never called.
\<close>

theorem SET_CONFIG_reinitialises_counterexample:
  "sdkInitialized readyState
   \<and> apiUrl_opt emptyEndpoint \<noteq> None
   \<and> lifecycleCalls (since readyState (snd (SET_CONFIG allSucceed emptyEndpoint readyState))) = []
   \<and> apiUrl_opt newEndpoint \<noteq> None
   \<and> lifecycleCalls (since readyState (snd (SET_CONFIG shutdownFails newEndpoint readyState)))
       = [SdkShutdown]"
  by (simp add: lifecycle_defs sample_defs)

text \<open>
  C10. Whatever the provider does, the store holds the merged configuration when the
  set-config handler has answered; the answer is a failure exactly when a
  reinitialisation was due and the provider's shutdown or init threw, and the merged
  configuration is kept then too.
\<close>

theorem SET_CONFIG_never_rolled_back:
  "config (snd (SET_CONFIG env cfg st)) = spread (config st) cfg
   \<and> success (fst (SET_CONFIG env cfg st)) =
      (\<not> (sdkInitialized st
           \<and> (truthy (apiUrl_opt cfg) \<or> requestPermissionsOnStartup_opt cfg \<noteq> None)
           \<and> (shutdownThrows env \<or> initThrows env (sdkOptionsOf (spread (config st) cfg)))))"
  by (simp only: SET_CONFIG_config SET_CONFIG_success simp_thms)

theorem SET_CONFIG_never_rolled_back_witness:
  "success (fst (SET_CONFIG shutdownFails newEndpoint readyState)) = False
   \<and> apiUrl (config (snd (SET_CONFIG shutdownFails newEndpoint readyState)))
       = ''https://eu-central-1.recall.ai''
   \<and> success (fst (SET_CONFIG initFails newEndpoint readyState)) = False
   \<and> apiUrl (config (snd (SET_CONFIG initFails newEndpoint readyState)))
       = ''https://eu-central-1.recall.ai''
   \<and> apiUrl (config readyState) = ''https://us-east-1.recall.ai''"
  using SET_CONFIG_never_rolled_back [of shutdownFails newEndpoint readyState]
    SET_CONFIG_never_rolled_back [of initFails newEndpoint readyState]
  by (simp add: lifecycle_defs sample_defs)

section \<open>A provider init that fails\<close>

text \<open>
  Through the init-sdk handler a failing provider init is reported as a failure and
  leaves the SDK uninitialised.
\<close>

lemma INIT_SDK_provider_failure:
  "enabled (config st) \<Longrightarrow> \<not> sdkInitialized st \<Longrightarrow> initThrows env (sdkOptionsOf (config st)) \<Longrightarrow>
    fst (INIT_SDK env st) = \<lparr>success = False, message = ''SDK initialization failed''\<rparr>
    \<and> sdkInitialized (snd (INIT_SDK env st)) = False
    \<and> lifecycleCalls (since st (snd (INIT_SDK env st))) = [SdkInit (sdkOptionsOf (config st))]"
  by (simp add: lifecycle_defs)

text \<open>
  C5 at the input where the code departs from it. The SDK is initialised, the endpoint
  is changed, the provider's shutdown returns and its init throws: the handler reports
  the failure, and \<open>sdkInitialized\<close> is still true although the provider session has
  been shut down and not rebuilt.
\<close>

theorem SET_CONFIG_failed_reinit_stays_initialized:
  "sdkInitialized readyState
   \<and> lifecycleCalls (since readyState (snd (SET_CONFIG initFails newEndpoint readyState)))
       = [SdkShutdown,
          SdkInit \<lparr>sdk_apiUrl = ''https://eu-central-1.recall.ai'',
                   acquirePermissionsOnStartup =
                     Some [accessibility, screen_capture, microphone, system_audio],
                   restartOnError = True\<rparr>]
   \<and> fst (SET_CONFIG initFails newEndpoint readyState)
       = \<lparr>success = False, message = ''Failed to update configuration''\<rparr>
   \<and> sdkInitialized (snd (SET_CONFIG initFails newEndpoint readyState)) = True"
  by (simp add: lifecycle_defs sample_defs)

section \<open>Association lists as JavaScript maps\<close>

lemma set_update_subset: "set (AList.update k v al) \<subseteq> insert (k, v) (set al)"
  by (induction al) auto

lemma set_delete_eq: "set (AList.delete k al) = {x \<in> set al. fst x \<noteq> k}"
  by (auto simp: AList.delete_eq)

lemma map_fst_map_ran: "map fst (AList.map_ran f al) = map fst al"
  by (induction al) auto

section \<open>The fan-out in closed form\<close>

lemma fanout_Nil [simp]: "fanout env ch d trk [] = []"
  by (simp add: fanout_def)

lemma fanout_Cons:
  "fanout env ch d trk (entry # m) = fanout env ch d trk [entry] @ fanout env ch d trk m"
  by (simp add: fanout_def)

lemma sendToSubscriber_eq:
  "sendToSubscriber env ch d st entry
     = st\<lparr>effects := effects st @ fanout env ch d (trackedWebContents st) [entry]\<rparr>"
  by (simp add: sendToSubscriber_def fanout_def emit_def Let_def split: option.splits)

lemma foldl_sendToSubscriber:
  "foldl (sendToSubscriber env ch d) st m
     = st\<lparr>effects := effects st @ fanout env ch d (trackedWebContents st) m\<rparr>"
proof (induction m arbitrary: st)
  case Nil
  show ?case by simp
next
  case (Cons entry m)
  have "foldl (sendToSubscriber env ch d) st (entry # m)
          = foldl (sendToSubscriber env ch d) (sendToSubscriber env ch d st entry) m"
    by simp
  also have "\<dots> = st\<lparr>effects := effects st @ fanout env ch d (trackedWebContents st) [entry]
                        @ fanout env ch d (trackedWebContents st) m\<rparr>"
    by (simp add: Cons.IH sendToSubscriber_eq)
  finally show ?case
    by (simp add: fanout_Cons [of env ch d _ entry m])
qed

lemma broadcastEvent_eq:
  "broadcastEvent env k d st = st\<lparr>effects := effects st @ fanoutOf env k d st\<rparr>"
  by (simp add: broadcastEvent_def fanoutOf_def subsMap_def Let_def foldl_sendToSubscriber
      split: option.splits)

lemma handleSdkEvent_eq:
  "handleSdkEvent env k d st =
     st\<lparr>sdkInitialized := (if k = Ev_shutdown then False else sdkInitialized st),
        effects := effects st @ sdkEventLine k #
          (if k = Ev_shutdown then [ConsoleLog ''RecallSdkStore: Cleared all state''] else [])
          @ fanoutOf env k d st\<rparr>"
proof -
  have se: "runSideEffect eventSideEffects k d (logSdkEvent k st)
      = st\<lparr>sdkInitialized := (if k = Ev_shutdown then False else sdkInitialized st),
           effects := effects st @ sdkEventLine k #
             (if k = Ev_shutdown then [ConsoleLog ''RecallSdkStore: Cleared all state''] else [])\<rparr>"
    by (simp add: runSideEffect_def eventSideEffects_def logSdkEvent_def clearState_def
        setSdkInitialized_def emit_def)
  show ?thesis
    unfolding handleSdkEvent_def handleSdkEventWith_def se broadcastEvent_eq
    by (simp add: fanoutOf_def subsMap_def)
qed

section \<open>Subscribe and unsubscribe in closed form\<close>

lemma SUBSCRIBE_EVENTS_snd:
  "snd (SUBSCRIBE_EVENTS env wc k st) =
     st\<lparr>subscriptions :=
          AList.update k (AList.update wc (subCount st k wc + 1) (subsMap st k)) (subscriptions st),
        trackedWebContents :=
          (if tracked st wc then trackedWebContents st
           else AList.update wc wc (trackedWebContents st)),
        sdkEventHandlers :=
          (if registered st k then sdkEventHandlers st
           else AList.update k k (sdkEventHandlers st)),
        effects := effects st
          @ (if tracked st wc then [] else [WcOnceDestroyed wc])
          @ (if registered st k then []
             else SdkAddEventListener k #
               (if addEventListenerThrows env k
                then [ConsoleError ''RecallDesktopMain: subscribe-events failed''] else []))\<rparr>"
  by (simp add: SUBSCRIBE_EVENTS_def addDestroyedCleanup_def ensureSdkListener_def Let_def
      tracked_def registered_def subCount_def subsMap_def emit_def split: option.splits)

lemma SUBSCRIBE_EVENTS_fst:
  "fst (SUBSCRIBE_EVENTS env wc k st) =
     (if registered st k \<or> \<not> addEventListenerThrows env k
      then \<lparr>success = True, message = ''Subscribed to '' @ eventName k\<rparr>
      else \<lparr>success = False, message = ''Failed to subscribe to events''\<rparr>)"
  by (simp add: SUBSCRIBE_EVENTS_def addDestroyedCleanup_def ensureSdkListener_def Let_def
      tracked_def registered_def subCount_def subsMap_def emit_def split: option.splits)

lemma UNSUBSCRIBE_EVENTS_snd:
  "snd (UNSUBSCRIBE_EVENTS wc k st) =
     (if map_of (subscriptions st) k = None then st
      else st\<lparr>subscriptions :=
          AList.update k
            (if subCount st k wc \<le> 1 then AList.delete wc (subsMap st k)
             else AList.update wc (subCount st k wc - 1) (subsMap st k))
            (subscriptions st)\<rparr>)"
  by (simp add: UNSUBSCRIBE_EVENTS_def Let_def subCount_def subsMap_def split: option.splits)

section \<open>The hub invariant\<close>

lemma hub_inv_subsMap:
  assumes "hub_inv st"
  shows "distinct (map fst (subsMap st k))"
    and "ic \<in> set (subsMap st k) \<Longrightarrow> 1 \<le> snd ic"
    and "ic \<in> set (subsMap st k) \<Longrightarrow> tracked st (fst ic)"
proof -
  have *: "distinct (map fst (subsMap st k))
      \<and> (\<forall>ic \<in> set (subsMap st k). 1 \<le> snd ic \<and> tracked st (fst ic))"
  proof (cases "map_of (subscriptions st) k")
    case None
    then show ?thesis by (simp add: subsMap_def)
  next
    case (Some m)
    then have "(k, m) \<in> set (subscriptions st)" by (rule map_of_SomeD)
    with assms Some show ?thesis
      by (force simp add: hub_inv_def hub_ok_def subsMap_def tracked_def)
  qed
  show "distinct (map fst (subsMap st k))" using * by simp
  show "ic \<in> set (subsMap st k) \<Longrightarrow> 1 \<le> snd ic" using * by simp
  show "ic \<in> set (subsMap st k) \<Longrightarrow> tracked st (fst ic)" using * by simp
qed

lemma hub_inv_tracked:
  "hub_inv st \<Longrightarrow> map_of (trackedWebContents st) c = Some w \<Longrightarrow> w = c"
  by (force simp add: hub_inv_def hub_ok_def dest: map_of_SomeD)

lemma hub_ok_update:
  assumes ok: "hub_ok subs trk"
    and d: "distinct (map fst m')"
    and e: "\<And>ic. ic \<in> set m' \<Longrightarrow> 1 \<le> snd ic \<and> map_of trk (fst ic) \<noteq> None"
  shows "hub_ok (AList.update k m' subs) trk"
  unfolding hub_ok_def
proof (intro conjI ballI)
  show "distinct (map fst (AList.update k m' subs))"
    using ok by (simp add: hub_ok_def distinct_update)
next
  fix iw assume "iw \<in> set trk"
  then show "snd iw = fst iw" using ok by (simp add: hub_ok_def)
next
  fix km assume "km \<in> set (AList.update k m' subs)"
  then have c: "km = (k, m') \<or> km \<in> set subs"
    using set_update_subset [of k m' subs] by auto
  show "distinct (map fst (snd km))"
    using c d ok by (auto simp: hub_ok_def)
  fix ic assume ic: "ic \<in> set (snd km)"
  have "1 \<le> snd ic \<and> map_of trk (fst ic) \<noteq> None"
  proof (cases "km = (k, m')")
    case True
    with ic have "ic \<in> set m'" by simp
    then show ?thesis by (rule e)
  next
    case False
    with c have "km \<in> set subs" by simp
    with ic ok show ?thesis by (simp add: hub_ok_def)
  qed
  then show "1 \<le> snd ic" "map_of trk (fst ic) \<noteq> None" by simp_all
qed

lemma hub_ok_track:
  assumes ok: "hub_ok subs trk"
  shows "hub_ok subs (AList.update wc wc trk)"
  unfolding hub_ok_def
proof (intro conjI ballI)
  show "distinct (map fst subs)" using ok by (simp add: hub_ok_def)
next
  fix iw assume "iw \<in> set (AList.update wc wc trk)"
  then have "iw = (wc, wc) \<or> iw \<in> set trk"
    using set_update_subset [of wc wc trk] by auto
  then show "snd iw = fst iw" using ok by (auto simp: hub_ok_def)
next
  fix km assume km: "km \<in> set subs"
  then show "distinct (map fst (snd km))" using ok by (simp add: hub_ok_def)
  fix ic assume "ic \<in> set (snd km)"
  with km ok have "1 \<le> snd ic \<and> map_of trk (fst ic) \<noteq> None"
    by (simp add: hub_ok_def)
  then show "1 \<le> snd ic" "map_of (AList.update wc wc trk) (fst ic) \<noteq> None"
    by (simp_all add: update_conv')
qed

lemma subCount_nonneg: "hub_inv st \<Longrightarrow> 0 \<le> subCount st k c"
proof -
  assume inv: "hub_inv st"
  show ?thesis
  proof (cases "map_of (subsMap st k) c")
    case None
    then show ?thesis by (simp add: subCount_def)
  next
    case (Some n)
    then have "(c, n) \<in> set (subsMap st k)" by (rule map_of_SomeD)
    then have "1 \<le> n" using hub_inv_subsMap(2) [OF inv] by fastforce
    with Some show ?thesis by (simp add: subCount_def)
  qed
qed

lemma hub_inv_SUBSCRIBE: 
  assumes inv: "hub_inv st"
  shows "hub_inv (snd (SUBSCRIBE_EVENTS env wc k st))"
proof -
  let ?trk = "if tracked st wc then trackedWebContents st
              else AList.update wc wc (trackedWebContents st)"
  let ?m = "AList.update wc (subCount st k wc + 1) (subsMap st k)"
  have t: "hub_ok (subscriptions st) ?trk"
    using inv by (simp add: hub_inv_def hub_ok_track)
  have wc: "map_of ?trk wc \<noteq> None"
    by (simp add: tracked_def update_conv')
  have keep: "map_of ?trk c \<noteq> None" if "tracked st c" for c
    using that by (simp add: tracked_def update_conv')
  have d: "distinct (map fst ?m)"
    using hub_inv_subsMap(1) [OF inv] by (simp add: distinct_update)
  have e: "1 \<le> snd ic \<and> map_of ?trk (fst ic) \<noteq> None" if "ic \<in> set ?m" for ic
  proof -
    from that have "ic = (wc, subCount st k wc + 1) \<or> ic \<in> set (subsMap st k)"
      using set_update_subset [of wc "subCount st k wc + 1" "subsMap st k"] by auto
    then show ?thesis
    proof
      assume "ic = (wc, subCount st k wc + 1)"
      then show ?thesis using subCount_nonneg [OF inv, of k wc] wc by simp
    next
      assume "ic \<in> set (subsMap st k)"
      then show ?thesis
        using hub_inv_subsMap(2,3) [OF inv] keep by blast
    qed
  qed
  have "hub_ok (AList.update k ?m (subscriptions st)) ?trk"
    using t d e by (rule hub_ok_update)
  then show ?thesis
    by (simp add: SUBSCRIBE_EVENTS_snd hub_inv_def)
qed

lemma hub_inv_UNSUBSCRIBE:
  assumes inv: "hub_inv st"
  shows "hub_inv (snd (UNSUBSCRIBE_EVENTS wc k st))"
proof (cases "map_of (subscriptions st) k = None")
  case True
  with inv show ?thesis by (simp add: UNSUBSCRIBE_EVENTS_snd)
next
  case False
  let ?m = "if subCount st k wc \<le> 1 then AList.delete wc (subsMap st k)
            else AList.update wc (subCount st k wc - 1) (subsMap st k)"
  have ok: "hub_ok (subscriptions st) (trackedWebContents st)"
    using inv by (simp add: hub_inv_def)
  have d: "distinct (map fst ?m)"
    using hub_inv_subsMap(1) [OF inv, of k] by (simp add: distinct_update distinct_delete)
  have e: "1 \<le> snd ic \<and> map_of (trackedWebContents st) (fst ic) \<noteq> None"
    if "ic \<in> set ?m" for ic
  proof (cases "subCount st k wc \<le> 1")
    case True
    with that have "ic \<in> set (subsMap st k)" by (simp add: set_delete_eq)
    then show ?thesis
      using hub_inv_subsMap(2,3) [OF inv, of ic k] by (simp add: tracked_def)
  next
    case big: False
    with that have "ic = (wc, subCount st k wc - 1) \<or> ic \<in> set (subsMap st k)"
      using set_update_subset [of wc "subCount st k wc - 1" "subsMap st k"] by auto
    then show ?thesis
    proof
      assume new: "ic = (wc, subCount st k wc - 1)"
      from big obtain n where n: "map_of (subsMap st k) wc = Some n"
        by (auto simp: subCount_def split: option.splits)
      then have "(wc, n) \<in> set (subsMap st k)" by (rule map_of_SomeD)
      then have "tracked st wc" using hub_inv_subsMap(3) [OF inv, of "(wc, n)" k] by simp
      with new big show ?thesis by (simp add: tracked_def)
    next
      assume "ic \<in> set (subsMap st k)"
      then show ?thesis
        using hub_inv_subsMap(2,3) [OF inv, of ic k] by (simp add: tracked_def)
    qed
  qed
  have "hub_ok (AList.update k ?m (subscriptions st)) (trackedWebContents st)"
    using ok d e by (rule hub_ok_update)
  with False show ?thesis
    by (auto simp add: UNSUBSCRIBE_EVENTS_snd hub_inv_def)
qed

lemma hub_inv_destroyedCallback:
  assumes inv: "hub_inv st"
  shows "hub_inv (destroyedCallback c st)"
proof -
  have ok: "hub_ok (subscriptions st) (trackedWebContents st)"
    using inv by (simp add: hub_inv_def)
  have "hub_ok (AList.map_ran (\<lambda>k m. AList.delete c m) (subscriptions st))
          (AList.delete c (trackedWebContents st))"
    unfolding hub_ok_def
  proof (intro conjI ballI)
    show "distinct (map fst (AList.map_ran (\<lambda>k m. AList.delete c m) (subscriptions st)))"
      using ok by (simp add: hub_ok_def map_fst_map_ran)
  next
    fix iw assume "iw \<in> set (AList.delete c (trackedWebContents st))"
    then show "snd iw = fst iw" using ok by (simp add: hub_ok_def set_delete_eq)
  next
    fix km assume "km \<in> set (AList.map_ran (\<lambda>k m. AList.delete c m) (subscriptions st))"
    then obtain k m where km: "km = (k, AList.delete c m)" and m: "(k, m) \<in> set (subscriptions st)"
      by (auto simp: AList.map_ran_def)
    show "distinct (map fst (snd km))"
      using km m ok by (force simp add: hub_ok_def distinct_delete)
    fix ic assume "ic \<in> set (snd km)"
    then have ic: "ic \<in> set m" "fst ic \<noteq> c" using km by (simp_all add: set_delete_eq)
    with m ok have "1 \<le> snd ic \<and> map_of (trackedWebContents st) (fst ic) \<noteq> None"
      by (force simp add: hub_ok_def)
    then show "1 \<le> snd ic" "map_of (AList.delete c (trackedWebContents st)) (fst ic) \<noteq> None"
      using ic(2) by (simp_all add: delete_conv')
  qed
  then show ?thesis by (simp add: destroyedCallback_def hub_inv_def)
qed

lemma lifecycle_hub [simp]:
  "subscriptions (snd (INIT_SDK env st)) = subscriptions st"
  "trackedWebContents (snd (INIT_SDK env st)) = trackedWebContents st"
  "sdkEventHandlers (snd (INIT_SDK env st)) = sdkEventHandlers st"
  "subscriptions (snd (SHUTDOWN_SDK env st)) = subscriptions st"
  "trackedWebContents (snd (SHUTDOWN_SDK env st)) = trackedWebContents st"
  "sdkEventHandlers (snd (SHUTDOWN_SDK env st)) = sdkEventHandlers st"
  "subscriptions (snd (SET_CONFIG env cfg st)) = subscriptions st"
  "trackedWebContents (snd (SET_CONFIG env cfg st)) = trackedWebContents st"
  "sdkEventHandlers (snd (SET_CONFIG env cfg st)) = sdkEventHandlers st"
  "subscriptions (handleSdkEvent env k d st) = subscriptions st"
  "trackedWebContents (handleSdkEvent env k d st) = trackedWebContents st"
  "sdkEventHandlers (handleSdkEvent env k d st) = sdkEventHandlers st"
  by (simp_all add: lifecycle_defs handleSdkEvent_eq)

lemma hub_inv_step: "hub_inv st \<Longrightarrow> hub_inv (step env r st)"
proof (cases r)
  case (SubscribeEvents wc k)
  assume "hub_inv st"
  then show ?thesis using SubscribeEvents by (simp add: hub_inv_SUBSCRIBE)
next
  case (UnsubscribeEvents wc k)
  assume "hub_inv st"
  then show ?thesis using UnsubscribeEvents by (simp add: hub_inv_UNSUBSCRIBE)
next
  case (Destroyed wc)
  assume "hub_inv st"
  then show ?thesis using Destroyed by (simp add: hub_inv_destroyedCallback)
qed (simp_all add: hub_inv_def)

lemma hub_inv_run: "hub_inv st \<Longrightarrow> hub_inv (run rs st)"
  by (induction rs arbitrary: st) (simp_all add: hub_inv_step)

lemma initialize_hub [simp]:
  "subscriptions (initialize st) = subscriptions st"
  "trackedWebContents (initialize st) = trackedWebContents st"
  "sdkEventHandlers (initialize st) = sdkEventHandlers st"
  by (simp_all add: initialize_def store_initialize_def)

lemma hub_inv_start: "hub_inv started"
  by (simp add: started_def hub_inv_def hub_ok_def recallDesktopMain_def)

section \<open>Subscription counts\<close>

lemma subsMap_update:
  "subsMap (st\<lparr>subscriptions := AList.update k' m (subscriptions st)\<rparr>) k
     = (if k = k' then m else subsMap st k)"
  by (simp add: subsMap_def update_conv')

lemma subCount_SUBSCRIBE:
  "subCount (snd (SUBSCRIBE_EVENTS env wc k' st)) k c
     = (if wc = c \<and> k' = k then subCount st k c + 1 else subCount st k c)"
  by (simp add: SUBSCRIBE_EVENTS_snd subCount_def subsMap_def update_conv')




lemma untracked_subCount:
  assumes inv: "hub_inv st" and u: "\<not> tracked st c"
  shows "map_of (subsMap st k) c = None"
proof (rule ccontr)
  assume "map_of (subsMap st k) c \<noteq> None"
  then obtain n where "map_of (subsMap st k) c = Some n" by auto
  then have "(c, n) \<in> set (subsMap st k)" by (rule map_of_SomeD)
  then have "tracked st c" using hub_inv_subsMap(3) [OF inv, of "(c, n)" k] by simp
  with u show False by simp
qed



section \<open>Unfolding the model on concrete runs\<close>

lemmas hub_defs =
  SUBSCRIBE_EVENTS_def UNSUBSCRIBE_EVENTS_def addDestroyedCleanup_def
  ensureSdkListener_def destroyedCallback_def handleSdkEvent_def handleSdkEventWith_def
  runSideEffect_def eventSideEffects_def logSdkEvent_def sdkEventLine_def broadcastEvent_def
  sendToSubscriber_def channelOf_def registered_def tracked_def subCount_def subsMap_def
  subscribersOf_def registrationsOf_def deliveriesTo_def netCount_def

lemmas run_samples =
  twoSubscribers_def twiceThenOnce_def twiceThenTwice_def sevenAndEight_def
  fireThenUnsubscribe_def firstSendFails_def throwingSideEffects_def

lemmas concrete_defs = hub_defs run_samples lifecycle_defs sample_defs

section \<open>Deliveries of one fan-out\<close>





section \<open>Traces of steps and runs\<close>

lemma since_append: "effects st' = effects st @ new \<Longrightarrow> since st st' = new"
  by (simp add: since_def)

lemma destroyedCallback_effects [simp]: "effects (destroyedCallback c st) = effects st"
  by (simp add: destroyedCallback_def)

lemma step_extends: "effects (step env r st) = effects st @ since st (step env r st)"
proof (cases r)
  case (SubscribeEvents w k)
  then show ?thesis by (simp add: SUBSCRIBE_EVENTS_snd since_def)
next
  case (UnsubscribeEvents w k)
  then show ?thesis by (simp add: UNSUBSCRIBE_EVENTS_snd since_def)
next
  case (SdkEvent k d)
  then show ?thesis by (simp add: handleSdkEvent_eq since_def)
qed (simp_all add: lifecycle_defs)

lemma run_extends: "effects (run rs st) = effects st @ since st (run rs st)"
proof (induction rs arbitrary: st)
  case Nil
  show ?case by (simp add: since_def)
next
  case (Cons er rs)
  let ?st1 = "step (fst er) (snd er) st"
  have "effects (run (er # rs) st) = effects ?st1 @ since ?st1 (run rs ?st1)"
    using Cons.IH [of ?st1] by simp
  also have "\<dots> = effects st @ since st ?st1 @ since ?st1 (run rs ?st1)"
    using step_extends [of "fst er" "snd er" st] by simp
  finally have *: "effects (run (er # rs) st)
      = effects st @ since st ?st1 @ since ?st1 (run rs ?st1)" .
  then have "since st (run (er # rs) st) = since st ?st1 @ since ?st1 (run rs ?st1)"
    by (rule since_append)
  with * show ?case by simp
qed

lemma since_run_Cons:
  "since st (run (er # rs) st)
     = since st (step (fst er) (snd er) st)
       @ since (step (fst er) (snd er) st) (run rs (step (fst er) (snd er) st))"
proof -
  let ?st1 = "step (fst er) (snd er) st"
  have "effects (run (er # rs) st) = effects ?st1 @ since ?st1 (run rs ?st1)"
    using run_extends [of rs ?st1] by simp
  also have "\<dots> = effects st @ since st ?st1 @ since ?st1 (run rs ?st1)"
    using step_extends [of "fst er" "snd er" st] by simp
  finally show ?thesis by (rule since_append)
qed

section \<open>One provider-side listener per kind\<close>

lemma registrationsOf_append [simp]:
  "registrationsOf k (xs @ ys) = registrationsOf k xs + registrationsOf k ys"
  by (simp add: registrationsOf_def)

lemma registrationsOf_fanout [simp]: "registrationsOf k (fanout env ch d trk m) = 0"
  by (induction m) (simp_all add: fanout_def registrationsOf_def split: option.splits)

lemma registrationsOf_step:
  "registrationsOf k (since st (step env r st))
     = (if \<not> registered st k \<and> subscribesTo k r then 1 else 0)"
proof (cases r)
  case (SubscribeEvents w k')
  then show ?thesis
    by (auto simp add: SUBSCRIBE_EVENTS_snd since_def registrationsOf_def)
next
  case (UnsubscribeEvents w k')
  then show ?thesis by (simp add: UNSUBSCRIBE_EVENTS_snd since_def registrationsOf_def)
next
  case (SdkEvent k' d)
  define pre where "pre = sdkEventLine k' #
    (if k' = Ev_shutdown then [ConsoleLog ''RecallSdkStore: Cleared all state''] else [])"
  have eq: "since st (handleSdkEvent env k' d st) = pre @ fanoutOf env k' d st"
    by (simp add: handleSdkEvent_eq since_def pre_def)
  have z: "registrationsOf k pre = 0"
    by (simp add: registrationsOf_def sdkEventLine_def pre_def)
  have "registrationsOf k (since st (handleSdkEvent env k' d st)) = 0"
    unfolding eq registrationsOf_append z by (simp add: fanoutOf_def)
  then show ?thesis using SdkEvent by (simp add: since_def registrationsOf_def)
qed (simp_all add: lifecycle_defs registrationsOf_def)

lemma registered_step:
  "registered (step env r st) k = (registered st k \<or> subscribesTo k r)"
proof (cases r)
  case (SubscribeEvents w k')
  then show ?thesis
    by (auto simp add: SUBSCRIBE_EVENTS_snd registered_def update_conv')
next
  case (UnsubscribeEvents w k')
  then show ?thesis by (simp add: UNSUBSCRIBE_EVENTS_snd registered_def)
next
  case (Destroyed w)
  then show ?thesis by (simp add: registered_def destroyedCallback_def)
qed (simp_all add: registered_def)

lemma registered_run:
  "registered (run rs st) k = (registered st k \<or> (\<exists>er \<in> set rs. subscribesTo k (snd er)))"
  by (induction rs arbitrary: st) (auto simp add: registered_step)

lemma registrationsOf_run:
  "registrationsOf k (since st (run rs st))
     = (if \<not> registered st k \<and> (\<exists>er \<in> set rs. subscribesTo k (snd er)) then 1 else 0)"
proof (induction rs arbitrary: st)
  case Nil
  show ?case by (simp add: since_def registrationsOf_def)
next
  case (Cons er rs)
  show ?case
    unfolding since_run_Cons registrationsOf_append Cons.IH registrationsOf_step registered_step
    by auto
qed

lemma ensureSdkListener_first:
  "\<not> registered st k \<Longrightarrow>
     since st (snd (ensureSdkListener env k st)) = [SdkAddEventListener k]
     \<and> registered (snd (ensureSdkListener env k st)) k"
  by (simp add: ensureSdkListener_def registered_def Let_def since_def update_conv')

lemma ensureSdkListener_again:
  "registered st k \<Longrightarrow> ensureSdkListener env k st = (None, st)"
  by (simp add: ensureSdkListener_def registered_def)

text \<open>
  C3. Over any run from any state, the provider's \<^verbatim>\<open>addEventListener\<close> is called
  for kind \<open>k\<close> once if no handler was stored for \<open>k\<close> and the run holds a
  subscribe call for \<open>k\<close>, and never otherwise, so at most once per kind however
  many subscribe and unsubscribe calls occur. The first \<open>ensureSdkListener\<close> for a
  kind makes exactly that call and stores the handler; with a handler stored the call
  changes nothing; and a stored handler survives every run, whatever the subscribers do.
\<close>

theorem one_provider_listener_per_kind:
  "registrationsOf k (since st (run rs st))
     = (if \<not> registered st k \<and> (\<exists>er \<in> set rs. subscribesTo k (snd er)) then 1 else 0)
   \<and> (\<not> registered st k \<longrightarrow>
        since st (snd (ensureSdkListener env k st)) = [SdkAddEventListener k]
        \<and> registered (snd (ensureSdkListener env k st)) k)
   \<and> (registered st k \<longrightarrow>
        ensureSdkListener env k st = (None, st) \<and> registered (run rs st) k)"
  using registrationsOf_run [of k st rs] ensureSdkListener_first [of st k env]
    ensureSdkListener_again [of st k env] registered_run [of rs st k]
  by simp

theorem one_provider_listener_per_kind_witness:
  "registered started Ev_meeting_detected = False
   \<and> registrationsOf Ev_meeting_detected
        (since started
           (run twiceThenTwice started)) = 1
   \<and> registered (run twiceThenTwice started) Ev_meeting_detected
   \<and> ensureSdkListener allSucceed Ev_meeting_detected (run twiceThenTwice started)
       = (None, run twiceThenTwice started)
   \<and> since started
        (snd (ensureSdkListener allSucceed Ev_meeting_detected started))
       = [SdkAddEventListener Ev_meeting_detected]"
  using one_provider_listener_per_kind
      [of Ev_meeting_detected started twiceThenTwice allSucceed]
    one_provider_listener_per_kind
      [of Ev_meeting_detected "run twiceThenTwice started" "[]" allSucceed]
  by (simp add: concrete_defs)

section \<open>A provider event reaches each subscribed consumer once\<close>






section \<open>A destroyed consumer\<close>

lemma no_send_fanout:
  assumes "\<And>i w. map_of trk i = Some w \<Longrightarrow> w \<noteq> c"
  shows "filter (isSendTo c) (fanout env ch d trk m) = []"
proof (induction m)
  case Nil
  show ?case by simp
next
  case (Cons entry m)
  have "filter (isSendTo c) (fanout env ch d trk [entry]) = []"
    using assms [of "fst entry"] by (simp add: fanout_def split: option.splits)
  with Cons.IH show ?case
    unfolding fanout_Cons [of env ch d trk entry m] by simp
qed

lemma no_send_fanoutOf:
  assumes inv: "hub_inv st" and u: "\<not> tracked st c"
  shows "filter (isSendTo c) (fanoutOf env k d st) = []"
  unfolding fanoutOf_def
proof (rule no_send_fanout)
  fix i w assume w: "map_of (trackedWebContents st) i = Some w"
  then have "w = i" by (rule hub_inv_tracked [OF inv])
  with w u show "w \<noteq> c" by (auto simp: tracked_def)
qed

lemma tracked_step:
  "\<not> tracked st c \<Longrightarrow> \<not> subscribesAs c r \<Longrightarrow> \<not> tracked (step env r st) c"
proof (cases r)
  case (SubscribeEvents w k)
  assume "\<not> tracked st c" "\<not> subscribesAs c r"
  then show ?thesis using SubscribeEvents
    by (simp add: SUBSCRIBE_EVENTS_snd tracked_def update_conv')
next
  case (UnsubscribeEvents w k)
  assume "\<not> tracked st c"
  then show ?thesis using UnsubscribeEvents
    by (simp add: UNSUBSCRIBE_EVENTS_snd tracked_def)
next
  case (Destroyed w)
  assume "\<not> tracked st c"
  then show ?thesis using Destroyed
    by (simp add: destroyedCallback_def tracked_def delete_conv')
qed (simp_all add: tracked_def)

lemma no_send_step:
  assumes inv: "hub_inv st" and u: "\<not> tracked st c"
  shows "filter (isSendTo c) (since st (step env r st)) = []"
proof (cases r)
  case (SubscribeEvents w k)
  then show ?thesis by (simp add: SUBSCRIBE_EVENTS_snd since_def)
next
  case (UnsubscribeEvents w k)
  then show ?thesis by (simp add: UNSUBSCRIBE_EVENTS_snd since_def)
next
  case (SdkEvent k d)
  define pre where "pre = sdkEventLine k #
    (if k = Ev_shutdown then [ConsoleLog ''RecallSdkStore: Cleared all state''] else [])"
  have eq: "since st (handleSdkEvent env k d st) = pre @ fanoutOf env k d st"
    by (simp add: handleSdkEvent_eq since_def pre_def)
  have z: "filter (isSendTo c) pre = []"
    by (simp add: sdkEventLine_def pre_def)
  have "filter (isSendTo c) (since st (handleSdkEvent env k d st)) = []"
    unfolding eq filter_append z no_send_fanoutOf [OF inv u] by simp
  then show ?thesis using SdkEvent by (simp add: since_def)
qed (simp_all add: lifecycle_defs)

lemma gone_run:
  assumes "hub_inv st" and "\<not> tracked st c" and "\<forall>er \<in> set rs. \<not> subscribesAs c (snd er)"
  shows "\<not> tracked (run rs st) c \<and> filter (isSendTo c) (since st (run rs st)) = []"
  using assms
proof (induction rs arbitrary: st)
  case Nil
  then show ?case by (simp add: since_def)
next
  case (Cons er rs)
  let ?st1 = "step (fst er) (snd er) st"
  have inv1: "hub_inv ?st1" using Cons.prems(1) by (rule hub_inv_step)
  have u1: "\<not> tracked ?st1 c" using Cons.prems(2,3) by (simp add: tracked_step)
  have rest: "\<not> tracked (run rs ?st1) c \<and> filter (isSendTo c) (since ?st1 (run rs ?st1)) = []"
    using inv1 u1 Cons.prems(3) by (intro Cons.IH) simp_all
  have first: "filter (isSendTo c) (since st ?st1) = []"
    using Cons.prems(1,2) by (rule no_send_step)
  show ?case
    unfolding since_run_Cons filter_append using rest first by simp
qed

lemma untracked_after_Destroyed: "\<not> tracked (step env (Destroyed c) st) c"
  by (simp add: tracked_def destroyedCallback_def delete_conv')

lemma untracked_not_subscriber:
  assumes inv: "hub_inv st" and u: "\<not> tracked st c"
  shows "c \<notin> set (subscribersOf st k)"
  using untracked_subCount [OF inv u, of k]
  by (simp add: subscribersOf_def map_of_eq_None_iff)

lemma untracked_UNSUBSCRIBE:
  assumes inv: "hub_inv st" and u: "\<not> tracked st c"
  shows "snd (UNSUBSCRIBE_EVENTS c k st) = st"
proof (cases "map_of (subscriptions st) k")
  case None
  then show ?thesis by (simp add: UNSUBSCRIBE_EVENTS_snd)
next
  case (Some m)
  have none: "map_of (subsMap st k) c = None" by (rule untracked_subCount [OF inv u])
  then have "c \<notin> fst ` set (subsMap st k)" by (simp add: map_of_eq_None_iff)
  then have del: "AList.delete c (subsMap st k) = subsMap st k" by simp
  have cnt: "subCount st k c = 0" using none by (simp add: subCount_def)
  have m: "subsMap st k = m" using Some by (simp add: subsMap_def)
  have del': "AList.delete c m = m" using del m by simp
  have upd: "AList.update k (AList.delete c (subsMap st k)) (subscriptions st) = subscriptions st"
    unfolding m del' using Some by (rule update_triv)
  have "snd (UNSUBSCRIBE_EVENTS c k st)
      = st\<lparr>subscriptions :=
             AList.update k (AList.delete c (subsMap st k)) (subscriptions st)\<rparr>"
    using Some by (simp add: UNSUBSCRIBE_EVENTS_snd cnt)
  then show ?thesis
    unfolding upd by simp
qed

text \<open>
  C6. After the \<^verbatim>\<open>destroyed\<close> event of consumer \<open>c\<close> has been processed, at any
  point of any run and whether or not \<open>c\<close> had subscriptions, \<open>c\<close> is in no
  kind's subscriber set and is no longer tracked. As long as \<open>c\<close> does not subscribe
  again, nothing that happens afterwards sends anything to \<open>c\<close>, an unsubscribe call
  in the name of \<open>c\<close> leaves the whole state as it is, and \<open>c\<close> stays out of every
  subscriber set.
\<close>

theorem destroyed_consumer_is_gone:
  "c \<notin> set (subscribersOf (step env (Destroyed c) (run rs0 started)) k)
   \<and> \<not> tracked (step env (Destroyed c) (run rs0 started)) c
   \<and> ((\<forall>er \<in> set rs. \<not> subscribesAs c (snd er)) \<longrightarrow>
        filter (isSendTo c)
          (since (step env (Destroyed c) (run rs0 started))
             (run rs (step env (Destroyed c) (run rs0 started)))) = []
        \<and> snd (UNSUBSCRIBE_EVENTS c k (run rs (step env (Destroyed c) (run rs0 started))))
            = run rs (step env (Destroyed c) (run rs0 started))
        \<and> c \<notin> set (subscribersOf (run rs (step env (Destroyed c) (run rs0 started))) k))"
proof -
  let ?st = "step env (Destroyed c) (run rs0 started)"
  have inv: "hub_inv ?st"
    using hub_inv_start by (intro hub_inv_step hub_inv_run)
  have u: "\<not> tracked ?st c" by (rule untracked_after_Destroyed)
  have a: "c \<notin> set (subscribersOf ?st k)" using inv u by (rule untracked_not_subscriber)
  have b: "filter (isSendTo c) (since ?st (run rs ?st)) = []
        \<and> snd (UNSUBSCRIBE_EVENTS c k (run rs ?st)) = run rs ?st
        \<and> c \<notin> set (subscribersOf (run rs ?st) k)"
    if no: "\<forall>er \<in> set rs. \<not> subscribesAs c (snd er)"
  proof -
    have g: "\<not> tracked (run rs ?st) c \<and> filter (isSendTo c) (since ?st (run rs ?st)) = []"
      using inv u no by (rule gone_run)
    have inv': "hub_inv (run rs ?st)" using inv by (rule hub_inv_run)
    show ?thesis
      using g untracked_UNSUBSCRIBE [OF inv', of c k] untracked_not_subscriber [OF inv', of c k]
      by simp
  qed
  show ?thesis using a u b by blast
qed

theorem destroyed_consumer_is_gone_witness:
  "tracked (run sevenAndEight started) 7
   \<and> subscribersOf (run sevenAndEight started) Ev_meeting_detected = [7, 8]
   \<and> subscribersOf (step allSucceed (Destroyed 7) (run sevenAndEight started))
        Ev_meeting_detected = [8]
   \<and> \<not> tracked (step allSucceed (Destroyed 7) (run sevenAndEight started)) 7
   \<and> since (step allSucceed (Destroyed 7) (run sevenAndEight started))
        (run fireThenUnsubscribe
           (step allSucceed (Destroyed 7) (run sevenAndEight started)))
       = [ConsoleLog ''RecallDesktopMain: meeting-detected'',
          WcSend 8 ''recall-desktop:event:meeting-detected'' ''zoom'']
   \<and> filter (isSendTo 7)
        (since (step allSucceed (Destroyed 7) (run sevenAndEight started))
           (run fireThenUnsubscribe
              (step allSucceed (Destroyed 7) (run sevenAndEight started)))) = []"
  using destroyed_consumer_is_gone
      [of 7 allSucceed sevenAndEight Ev_meeting_detected fireThenUnsubscribe]
  by (simp add: concrete_defs)

section \<open>Subscribing in any lifecycle state\<close>

text \<open>
  C9, as the code has it. Whatever the configuration and whether or not the SDK is
  initialised, a subscribe call raises the caller's count for the kind by one, leaves a
  handler stored for the kind, calls the provider's \<^verbatim>\<open>addEventListener\<close> once if no
  handler was stored before and not at all otherwise, calls neither init nor shutdown,
  and leaves the configuration and the \<open>sdkInitialized\<close> flag alone. The answer is a
  success, except when that \<^verbatim>\<open>addEventListener\<close> call throws: then the answer is a
  failure, while the count has been raised and the handler stays stored.
\<close>

theorem subscribe_in_any_lifecycle_state:
  "fst (SUBSCRIBE_EVENTS env wc k st)
       = (if registered st k \<or> \<not> addEventListenerThrows env k
          then \<lparr>success = True, message = ''Subscribed to '' @ eventName k\<rparr>
          else \<lparr>success = False, message = ''Failed to subscribe to events''\<rparr>)
   \<and> subCount (snd (SUBSCRIBE_EVENTS env wc k st)) k wc = subCount st k wc + 1
   \<and> registered (snd (SUBSCRIBE_EVENTS env wc k st)) k
   \<and> registrationsOf k (since st (snd (SUBSCRIBE_EVENTS env wc k st)))
       = (if registered st k then 0 else 1)
   \<and> lifecycleCalls (since st (snd (SUBSCRIBE_EVENTS env wc k st))) = []
   \<and> config (snd (SUBSCRIBE_EVENTS env wc k st)) = config st
   \<and> sdkInitialized (snd (SUBSCRIBE_EVENTS env wc k st)) = sdkInitialized st"
  using registrationsOf_step [of k st env "SubscribeEvents wc k"]
    registered_step [of env "SubscribeEvents wc k" st k]
  by (simp add: SUBSCRIBE_EVENTS_fst subCount_SUBSCRIBE)
     (simp add: SUBSCRIBE_EVENTS_snd since_def lifecycleCalls_def)

theorem subscribe_in_any_lifecycle_state_witness:
  "\<not> enabled (config disabledState)
   \<and> \<not> sdkInitialized disabledState
   \<and> fst (SUBSCRIBE_EVENTS allSucceed 7 Ev_meeting_detected disabledState)
       = \<lparr>success = True, message = ''Subscribed to meeting-detected''\<rparr>
   \<and> subCount (snd (SUBSCRIBE_EVENTS allSucceed 7 Ev_meeting_detected disabledState))
        Ev_meeting_detected 7 = 1
   \<and> since disabledState (snd (SUBSCRIBE_EVENTS allSucceed 7 Ev_meeting_detected disabledState))
       = [WcOnceDestroyed 7, SdkAddEventListener Ev_meeting_detected]"
  using subscribe_in_any_lifecycle_state
      [where env = allSucceed and k = Ev_meeting_detected and wc = 7 and st = disabledState]
  by (simp add: concrete_defs)

text \<open>
  C9, as stated, fails: when the provider's \<^verbatim>\<open>addEventListener\<close> throws on the first
  subscribe call for a kind, the answer is a failure, although the count was raised and
  the handler stored.
\<close>

theorem subscribe_listener_throws_counterexample:
  "fst (SUBSCRIBE_EVENTS listenerFails 7 Ev_meeting_detected started)
       = \<lparr>success = False, message = ''Failed to subscribe to events''\<rparr>
   \<and> subCount started Ev_meeting_detected 7 = 0
   \<and> subCount (snd (SUBSCRIBE_EVENTS listenerFails 7 Ev_meeting_detected started))
        Ev_meeting_detected 7 = 1
   \<and> registered (snd (SUBSCRIBE_EVENTS listenerFails 7 Ev_meeting_detected started))
        Ev_meeting_detected
   \<and> since started (snd (SUBSCRIBE_EVENTS listenerFails 7 Ev_meeting_detected started))
       = [WcOnceDestroyed 7, SdkAddEventListener Ev_meeting_detected,
          ConsoleError ''RecallDesktopMain: subscribe-events failed'']"
  by (simp add: concrete_defs)

section \<open>Side effect first, then fan-out\<close>

lemma sends_fanout:
  "filter isSend (fanout env ch d trk m)
     = map (\<lambda>w. WcSend w ch d) (List.map_filter (map_of trk) (map fst m))"
  by (induction m) (simp_all add: fanout_def List.map_filter_simps split: option.splits)

lemma sends_fanoutOf:
  "filter isSend (fanoutOf env k d st) = map (\<lambda>w. WcSend w (channelOf k) d) (recipients st k)"
  by (simp add: fanoutOf_def recipients_def subscribersOf_def sends_fanout)

lemma runSideEffect_frame:
  assumes "case table k of None \<Rightarrow> True | Some f \<Rightarrow> leavesHubAlone (f d)"
  shows "subscriptions (runSideEffect table k d st) = subscriptions st"
    and "trackedWebContents (runSideEffect table k d st) = trackedWebContents st"
    and "effects (runSideEffect table k d st) = effects st @ since st (runSideEffect table k d st)"
proof -
  have *: "subscriptions (runSideEffect table k d st) = subscriptions st
      \<and> trackedWebContents (runSideEffect table k d st) = trackedWebContents st
      \<and> effects (runSideEffect table k d st) = effects st @ since st (runSideEffect table k d st)"
  proof (cases "table k")
    case None
    then show ?thesis by (simp add: runSideEffect_def since_def)
  next
    case (Some f)
    obtain r st1 where f: "f d st = (r, st1)" by (cases "f d st")
    have h: "subscriptions st1 = subscriptions st \<and> trackedWebContents st1 = trackedWebContents st
        \<and> effects st1 = effects st @ since st st1"
      using assms Some f by (auto simp add: leavesHubAlone_def dest: spec [of _ st])
    then have e: "since st (emit x st1) = since st st1 @ [x]" for x
      by (metis append.assoc emit_fields(8) since_append)
    show ?thesis
      using h e by (cases r) (simp_all add: runSideEffect_def Some f)
  qed
  show "subscriptions (runSideEffect table k d st) = subscriptions st" using * by simp
  show "trackedWebContents (runSideEffect table k d st) = trackedWebContents st" using * by simp
  show "effects (runSideEffect table k d st) = effects st @ since st (runSideEffect table k d st)"
    using * by simp
qed

text \<open>
  C8. For any side-effect table whose entry for the kind leaves the hub alone, and so for
  the table of the source: what the listener emits for one event is first everything up
  to the end of the side effect (the event's log line, the side effect's own calls, and
  the error line if it threw), and only then the fan-out. The fan-out is the one computed
  from the subscribers and tracked consumers as they were before, whether the side effect
  threw or not, and it calls \<^verbatim>\<open>send\<close> once on every tracked subscriber, in order,
  whichever of these sends throw.
\<close>

theorem side_effect_precedes_fanout:
  assumes "case table k of None \<Rightarrow> True | Some f \<Rightarrow> leavesHubAlone (f d)"
  shows "handleSdkEventWith table env k d st
           = (runSideEffect table k d (logSdkEvent k st))
               \<lparr>effects := effects st
                  @ since st (runSideEffect table k d (logSdkEvent k st))
                  @ fanoutOf env k d st\<rparr>
       \<and> filter isSend (fanoutOf env k d st)
           = map (\<lambda>w. WcSend w (channelOf k) d) (recipients st k)"
proof -
  let ?st1 = "logSdkEvent k st"
  let ?mid = "runSideEffect table k d ?st1"
  have fr: "subscriptions ?mid = subscriptions st" "trackedWebContents ?mid = trackedWebContents st"
    using runSideEffect_frame(1,2) [where table = table and k = k and d = d and st = "logSdkEvent k st", OF assms]
    by (simp_all add: logSdkEvent_def)
  have "effects ?mid = effects ?st1 @ since ?st1 ?mid"
    using runSideEffect_frame(3) [where table = table and k = k and d = d and st = "logSdkEvent k st", OF assms] by simp
  then have ex: "effects ?mid = effects st @ (sdkEventLine k # since ?st1 ?mid)"
    by (simp add: logSdkEvent_def)
  then have "since st ?mid = sdkEventLine k # since ?st1 ?mid" by (rule since_append)
  with ex have ext: "effects ?mid = effects st @ since st ?mid" by simp
  have "fanoutOf env k d ?mid = fanoutOf env k d st"
    using fr by (simp add: fanoutOf_def subsMap_def)
  then have "handleSdkEventWith table env k d st
      = ?mid\<lparr>effects := effects st @ since st ?mid @ fanoutOf env k d st\<rparr>"
    using ext by (simp add: handleSdkEventWith_def broadcastEvent_eq)
  then show ?thesis by (simp add: sends_fanoutOf)
qed

theorem side_effect_precedes_fanout_witness:
  "(case eventSideEffects Ev_shutdown of None \<Rightarrow> True | Some f \<Rightarrow> leavesHubAlone (f ''bye''))
   \<and> (case throwingSideEffects Ev_shutdown of
        None \<Rightarrow> True | Some f \<Rightarrow> leavesHubAlone (f ''bye''))
   \<and> sdkInitialized (run twoSubscribers started)
   \<and> since (run twoSubscribers started)
        (handleSdkEvent firstSendFails Ev_shutdown ''bye'' (run twoSubscribers started))
       = [ConsoleLog ''RecallDesktopMain: shutdown'',
          ConsoleLog ''RecallSdkStore: Cleared all state'',
          WcSend 1 ''recall-desktop:event:shutdown'' ''bye'',
          ConsoleError ''RecallDesktopMain: Failed to send event to webContents'',
          WcSend 2 ''recall-desktop:event:shutdown'' ''bye'']
   \<and> sdkInitialized
        (handleSdkEvent firstSendFails Ev_shutdown ''bye'' (run twoSubscribers started))
       = False
   \<and> since (run twoSubscribers started)
        (handleSdkEventWith throwingSideEffects firstSendFails Ev_shutdown ''bye''
           (run twoSubscribers started))
       = [ConsoleLog ''RecallDesktopMain: shutdown'',
          ConsoleError ''RecallDesktopMain: Side effect failed for'',
          WcSend 1 ''recall-desktop:event:shutdown'' ''bye'',
          ConsoleError ''RecallDesktopMain: Failed to send event to webContents'',
          WcSend 2 ''recall-desktop:event:shutdown'' ''bye'']"
  using side_effect_precedes_fanout
      [where table = eventSideEffects and k = Ev_shutdown and d = "''bye''"
         and env = firstSendFails and st = "run twoSubscribers started"]
    side_effect_precedes_fanout
      [where table = throwingSideEffects and k = Ev_shutdown and d = "''bye''"
         and env = firstSendFails and st = "run twoSubscribers started"]
  by (simp add: concrete_defs leavesHubAlone_def fanoutOf_def fanout_def recipients_def
       List.map_filter_simps)

end
